theory Spec2Isabelle
  imports Main "HOL-Library.Word" "HOL-Library.Sublist"
begin

section \<open>JavaScript values used by the JSON:API adapter\<close>

text \<open>
  A JavaScript string is a sequence of UTF-16 code units.  \<open>str\<close> embeds an
  Isabelle literal so that examples can be written as \<open>str ''author,body''\<close>.
\<close>

type_synonym jschar = "16 word"
type_synonym jsstring = "jschar list"

definition str :: "string \<Rightarrow> jsstring" where
  "str s = map of_char s"

definition comma :: jschar where
  "comma = 0x2C"

text \<open>
  \<open>String.prototype.trim\<close> removes the ECMAScript WhiteSpace and LineTerminator
  code units from both ends of a string.
\<close>

definition isWhiteSpace :: "jschar \<Rightarrow> bool" where
  "isWhiteSpace c \<longleftrightarrow>
     c = 0x9 \<or> c = 0xA \<or> c = 0xB \<or> c = 0xC \<or> c = 0xD \<or> c = 0x20 \<or> c = 0xA0 \<or>
     c = 0x1680 \<or> (0x2000 \<le> c \<and> c \<le> 0x200A) \<or> c = 0x2028 \<or> c = 0x2029 \<or>
     c = 0x202F \<or> c = 0x205F \<or> c = 0x3000 \<or> c = 0xFEFF"

definition trim :: "jsstring \<Rightarrow> jsstring" where
  "trim s = rev (dropWhile isWhiteSpace (rev (dropWhile isWhiteSpace s)))"

text \<open>
  \<open>s.split(sep)\<close> for a one-character separator: the pieces between the
  occurrences of \<open>sep\<close>, so the empty string gives one empty piece.  \<open>cur\<close>
  holds the current piece, reversed.
\<close>

fun split_from :: "jschar \<Rightarrow> jsstring \<Rightarrow> jsstring \<Rightarrow> jsstring list" where
  "split_from sep cur [] = [rev cur]"
| "split_from sep cur (c # cs) =
     (if c = sep then rev cur # split_from sep [] cs
      else split_from sep (c # cur) cs)"

definition split_str :: "jschar \<Rightarrow> jsstring \<Rightarrow> jsstring list" where
  "split_str sep s = split_from sep [] s"

text \<open>
  \<open>xs.indexOf(x)\<close>: the first index at which \<open>x\<close> occurs, or \<open>-1\<close>.
\<close>

fun indexOf :: "'a list \<Rightarrow> 'a \<Rightarrow> int" where
  "indexOf [] x = - 1"
| "indexOf (y # ys) x =
     (if y = x then 0
      else (let r = indexOf ys x in if r = - 1 then - 1 else r + 1))"

primrec every :: "('a \<Rightarrow> bool) \<Rightarrow> 'a list \<Rightarrow> bool" where
  "every p [] = True"
| "every p (x # xs) = (p x \<and> every p xs)"


section \<open>Field-tracking cache: comparing two field strings\<close>

text \<open>
  \<^verbatim>\<open>
  function hasSomeFields(cachedFields, snapshotFields) {
    const listOfCachedFields = cachedFields.split(',').map(field => field.trim());
    const listOfSnapshotFields = snapshotFields.split(',').map(field => field.trim());
    return (
      listOfSnapshotFields.every(i => listOfCachedFields.indexOf(i) > -1) ||
      (listOfSnapshotFields.length < listOfCachedFields.length &&
        listOfSnapshotFields.every(i => listOfCachedFields.indexOf(i) > -1))
    );
  }
  \<close>
\<close>

definition hasSomeFields :: "jsstring \<Rightarrow> jsstring \<Rightarrow> bool" where
  "hasSomeFields cachedFields snapshotFields =
     (let listOfCachedFields = map trim (split_str comma cachedFields);
          listOfSnapshotFields = map trim (split_str comma snapshotFields)
      in every (\<lambda>i. indexOf listOfCachedFields i > - 1) listOfSnapshotFields \<or>
         (length listOfSnapshotFields < length listOfCachedFields \<and>
          every (\<lambda>i. indexOf listOfCachedFields i > - 1) listOfSnapshotFields))"

text \<open>
  The specification's reading of a field string: the trimmed names between the
  commas, and the plain test that the requested names all occur among the cached
  ones.
\<close>

definition fieldList :: "jsstring \<Rightarrow> jsstring list" where
  "fieldList s = map trim (split_str comma s)"

definition requestedSubsetOfCached :: "jsstring \<Rightarrow> jsstring \<Rightarrow> bool" where
  "requestedSubsetOfCached cachedFields snapshotFields \<longleftrightarrow>
     set (fieldList snapshotFields) \<subseteq> set (fieldList cachedFields)"


section \<open>Field-tracking cache: the history of requested fields\<close>

text \<open>
  The \<open>fields\<close> object of \<open>adapterOptions\<close> maps a group name to a comma-delimited
  string of field names.  It is a plain object, modelled by its own enumerable
  properties in enumeration order.
\<close>

type_synonym fieldSelection = "(jsstring \<times> jsstring) list"

text \<open>
  A read \<open>obj[key]\<close> gives the object's own property when it has one.  Otherwise
  it goes to \<open>Object.prototype\<close>: for the names of its members the read gives
  that member, a function (for \<open>__proto__\<close> the prototype object), which is truthy
  and is not a string; for every other name it gives \<open>undefined\<close>.
\<close>

definition objectPrototypeKeys :: "jsstring list" where
  "objectPrototypeKeys =
     map str [''constructor'', ''hasOwnProperty'', ''isPrototypeOf'', ''propertyIsEnumerable'',
       ''toLocaleString'', ''toString'', ''valueOf'', ''__proto__'', ''__defineGetter__'',
       ''__defineSetter__'', ''__lookupGetter__'', ''__lookupSetter__'']"

datatype jsvalue = Undefined | Str jsstring | Inherited

datatype error = TypeError

definition get :: "fieldSelection \<Rightarrow> jsstring \<Rightarrow> jsvalue" where
  "get obj key =
     (case map_of obj key of
        Some s \<Rightarrow> Str s
      | None \<Rightarrow> if key \<in> set objectPrototypeKeys then Inherited else Undefined)"

definition truthy :: "jsvalue \<Rightarrow> bool" where
  "truthy v = (case v of Undefined \<Rightarrow> False | Str s \<Rightarrow> s \<noteq> [] | Inherited \<Rightarrow> True)"

text \<open>
  The call \<open>hasSomeFields(entry[key], snapshotFields[key])\<close>: its first step is
  \<open>cachedFields.split(',')\<close>, which throws a \<open>TypeError\<close> when \<open>cachedFields\<close> is
  not a string.
\<close>

definition callHasSomeFields :: "jsvalue \<Rightarrow> jsstring \<Rightarrow> error + bool" where
  "callHasSomeFields cachedFields snapshotFields =
     (case cachedFields of
        Str s \<Rightarrow> Inr (hasSomeFields s snapshotFields)
      | Undefined \<Rightarrow> Inl TypeError
      | Inherited \<Rightarrow> Inl TypeError)"

text \<open>
  \<open>xs.some(f)\<close>: whether the callback gives a truthy value on some element; an
  exception of the callback ends it.  The callback of \<open>equalFields\<close> returns
  \<open>undefined\<close> (\<open>None\<close>), \<open>true\<close> or \<open>false\<close>.
\<close>

primrec some :: "('a \<Rightarrow> error + bool option) \<Rightarrow> 'a list \<Rightarrow> error + bool" where
  "some f [] = Inr False"
| "some f (x # xs) =
     (case f x of
        Inl e \<Rightarrow> Inl e
      | Inr v \<Rightarrow> if v = Some True then Inr True else some f xs)"

text \<open>
  \<^verbatim>\<open>
  function equalFields(cachedFields, snapshotFields) {
    return cachedFields.some(entry => {
      let isEqual;
      for (let key in snapshotFields) {
        if (entry[key]) {
          isEqual = hasSomeFields(entry[key], snapshotFields[key]);
        } else {
          isEqual = false;
        }
        if (isEqual === false) {
          break;
        }
      }
      return isEqual;
    });
  }
  \<close>
  \<open>equalFields_loop\<close> is the \<open>for ... in\<close> loop over the remaining properties of
  \<open>snapshotFields\<close>, with the current value of \<open>isEqual\<close>; for the property
  \<open>(key, requested)\<close> the read \<open>snapshotFields[key]\<close> is \<open>requested\<close>.
\<close>

fun equalFields_loop ::
  "fieldSelection \<Rightarrow> fieldSelection \<Rightarrow> bool option \<Rightarrow> error + bool option" where
  "equalFields_loop entry [] isEqual = Inr isEqual"
| "equalFields_loop entry ((key, requested) # rest) isEqual =
     (case (if truthy (get entry key) then callHasSomeFields (get entry key) requested
            else Inr False) of
        Inl e \<Rightarrow> Inl e
      | Inr isEqual' \<Rightarrow>
          if isEqual' = False then Inr (Some False)
          else equalFields_loop entry rest (Some isEqual'))"

definition equalFields :: "fieldSelection list \<Rightarrow> fieldSelection \<Rightarrow> error + bool" where
  "equalFields cachedFields snapshotFields =
     some (\<lambda>entry. equalFields_loop entry snapshotFields None) cachedFields"

text \<open>
  \<open>FieldsForRecord\<close> is the module's \<open>WeakMap\<close> from a record to the list of field
  selections requested for it so far; it starts as \<open>new WeakMap()\<close>.  The list
  of a record is reachable through the map only, and no function of the module
  writes to a \<open>fields\<close> object, so the entries are modelled as values.
  \<^verbatim>\<open>
  function captureFields(record, snapshotFields) {
    let cachedFields = FieldsForRecord.get(record);
    if (cachedFields && cachedFields.length) {
      if (equalFields(cachedFields, snapshotFields)) {
        return false;
      }
      cachedFields.push(snapshotFields);
      FieldsForRecord.set(record, cachedFields);
      return true;
    } else {
      FieldsForRecord.set(record, [snapshotFields]);
      return true;
    }
  }
  \<close>
  The result is the exception thrown, or the value returned and the map after
  the call.  An exception of \<open>equalFields\<close> leaves before anything is written.
\<close>

type_synonym 'r fieldsForRecord = "'r \<rightharpoonup> fieldSelection list"

definition newWeakMap :: "'r fieldsForRecord" where
  "newWeakMap = Map.empty"

definition captureFields ::
  "'r \<Rightarrow> fieldSelection \<Rightarrow> 'r fieldsForRecord \<Rightarrow> error + bool \<times> 'r fieldsForRecord" where
  "captureFields rec snapshotFields FieldsForRecord =
     (case FieldsForRecord rec of
        Some cachedFields \<Rightarrow>
          if cachedFields \<noteq> [] then
            (case equalFields cachedFields snapshotFields of
               Inl e \<Rightarrow> Inl e
             | Inr seen \<Rightarrow>
                 if seen then Inr (False, FieldsForRecord)
                 else Inr (True, FieldsForRecord(rec \<mapsto> cachedFields @ [snapshotFields])))
          else Inr (True, FieldsForRecord(rec \<mapsto> [snapshotFields]))
      | None \<Rightarrow> Inr (True, FieldsForRecord(rec \<mapsto> [snapshotFields])))"

definition historyOf :: "'r fieldsForRecord \<Rightarrow> 'r \<Rightarrow> fieldSelection list" where
  "historyOf FieldsForRecord rec =
     (case FieldsForRecord rec of None \<Rightarrow> [] | Some cachedFields \<Rightarrow> cachedFields)"

text \<open>The map after a call: as before when the call threw.\<close>

definition cacheAfter :: "'r fieldsForRecord \<Rightarrow> error + 'a \<times> 'r fieldsForRecord \<Rightarrow> 'r fieldsForRecord" where
  "cacheAfter FieldsForRecord result =
     (case result of Inl e \<Rightarrow> FieldsForRecord | Inr (v, FieldsForRecord') \<Rightarrow> FieldsForRecord')"


section \<open>The adapter methods that use the cache\<close>

record adapter =
  supportsJSONAPIFields :: bool
  coalesceFindRequests :: bool

record adapter_options =
  options_fields :: "fieldSelection option"

record 'r snapshot =
  snapshot_record :: 'r
  adapterOptions :: "adapter_options option"

text \<open>
  \<open>snapshot.adapterOptions && snapshot.adapterOptions.fields\<close>; an object, even an
  empty one, is truthy.
\<close>

definition snapshotFields_of :: "'r snapshot \<Rightarrow> fieldSelection option" where
  "snapshotFields_of snapshot =
     (case adapterOptions snapshot of None \<Rightarrow> None | Some opts \<Rightarrow> options_fields opts)"

text \<open>
  \<^verbatim>\<open>
  shouldReloadRecord(store, snapshot) {
    if (this.supportsJSONAPIFields) {
      let snapshotFields = snapshot.adapterOptions && snapshot.adapterOptions.fields;
      if (snapshotFields) {
        return captureFields(snapshot.record, snapshotFields);
      }
    }
    return false;
  }
  \<close>
\<close>

definition shouldReloadRecord ::
  "adapter \<Rightarrow> 's \<Rightarrow> 'r snapshot \<Rightarrow> 'r fieldsForRecord \<Rightarrow> error + bool \<times> 'r fieldsForRecord" where
  "shouldReloadRecord self store snapshot FieldsForRecord =
     (if supportsJSONAPIFields self then
        (case snapshotFields_of snapshot of
           Some snapshotFields \<Rightarrow>
             captureFields (snapshot_record snapshot) snapshotFields FieldsForRecord
         | None \<Rightarrow> Inr (False, FieldsForRecord))
      else Inr (False, FieldsForRecord))"

text \<open>
  \<open>findRecord\<close> records the requested fields when the feature is on and emits
  the deprecation \<open>ember-data:-built-in-fields-support\<close> when it is off; then it
  calls the inherited \<open>findRecord\<close> of the REST adapter, which is a parameter
  here (\<open>super\<close>).  \<open>FieldsForRecord\<close> is private to this module, so the inherited
  method cannot change it.  The result is the inherited method's result and the
  deprecation ids emitted; an exception of \<open>captureFields\<close> leaves before the
  inherited method is called.
\<close>

definition findRecord ::
  "('s \<Rightarrow> 't \<Rightarrow> jsstring \<Rightarrow> 'r snapshot \<Rightarrow> 'p) \<Rightarrow> adapter \<Rightarrow> 's \<Rightarrow> 't \<Rightarrow> jsstring \<Rightarrow>
   'r snapshot \<Rightarrow> 'r fieldsForRecord \<Rightarrow> error + ('p \<times> string list) \<times> 'r fieldsForRecord" where
  "findRecord super self store modelType rid snapshot FieldsForRecord =
     (case snapshotFields_of snapshot of
        Some snapshotFields \<Rightarrow>
          if supportsJSONAPIFields self then
            (case captureFields (snapshot_record snapshot) snapshotFields FieldsForRecord of
               Inl e \<Rightarrow> Inl e
             | Inr (reload, FieldsForRecord') \<Rightarrow>
                 Inr ((super store modelType rid snapshot, []), FieldsForRecord'))
          else
            Inr ((super store modelType rid snapshot, [''ember-data:-built-in-fields-support'']),
                 FieldsForRecord)
      | None \<Rightarrow> Inr ((super store modelType rid snapshot, []), FieldsForRecord))"

text \<open>
  A sequence of calls of the two methods, threading the cache through; a call
  that throws leaves the cache as it was.
\<close>

datatype ('s, 't, 'r) call =
  FindRecord adapter 's 't jsstring "'r snapshot"
| ShouldReloadRecord adapter 's "'r snapshot"

primrec perform ::
  "('s \<Rightarrow> 't \<Rightarrow> jsstring \<Rightarrow> 'r snapshot \<Rightarrow> 'p) \<Rightarrow> ('s, 't, 'r) call \<Rightarrow>
   'r fieldsForRecord \<Rightarrow> 'r fieldsForRecord" where
  "perform super (FindRecord self store modelType rid snapshot) FieldsForRecord =
     cacheAfter FieldsForRecord (findRecord super self store modelType rid snapshot FieldsForRecord)"
| "perform super (ShouldReloadRecord self store snapshot) FieldsForRecord =
     cacheAfter FieldsForRecord (shouldReloadRecord self store snapshot FieldsForRecord)"

primrec perform_all ::
  "('s \<Rightarrow> 't \<Rightarrow> jsstring \<Rightarrow> 'r snapshot \<Rightarrow> 'p) \<Rightarrow> ('s, 't, 'r) call list \<Rightarrow>
   'r fieldsForRecord \<Rightarrow> 'r fieldsForRecord" where
  "perform_all super [] FieldsForRecord = FieldsForRecord"
| "perform_all super (c # cs) FieldsForRecord =
     perform_all super cs (perform super c FieldsForRecord)"

text \<open>
  The specification's coverage: an entry covers a request when, for every group
  key of the request, the requested field set is a subset of the entry's cached
  field set for that key.  The cached fields of an entry are those of its own
  properties; an entry without the key has none for it.
\<close>

definition fieldSet :: "fieldSelection \<Rightarrow> jsstring \<Rightarrow> jsstring set" where
  "fieldSet entry key =
     (case map_of entry key of None \<Rightarrow> {} | Some cached \<Rightarrow> set (fieldList cached))"

definition covers :: "fieldSelection \<Rightarrow> fieldSelection \<Rightarrow> bool" where
  "covers entry request \<longleftrightarrow>
     list_all (\<lambda>(key, requested). set (fieldList requested) \<subseteq> fieldSet entry key) request"

definition coveredBy :: "fieldSelection list \<Rightarrow> fieldSelection \<Rightarrow> bool" where
  "coveredBy cachedFields request \<longleftrightarrow> list_ex (\<lambda>entry. covers entry request) cachedFields"

text \<open>
  Conditions under which the code agrees with the coverage: the cached string of
  every requested key is not empty, and no requested key is the name of a member
  of \<open>Object.prototype\<close>.
\<close>

definition cachedTruthy :: "fieldSelection \<Rightarrow> fieldSelection \<Rightarrow> bool" where
  "cachedTruthy entry request \<longleftrightarrow>
     list_all (\<lambda>(key, requested). map_of entry key \<noteq> Some []) request"

definition ownKeysOnly :: "fieldSelection \<Rightarrow> bool" where
  "ownKeysOnly request \<longleftrightarrow>
     list_all (\<lambda>(key, requested). key \<notin> set objectPrototypeKeys) request"

text \<open>
  What the loop of \<open>equalFields\<close> does for one property \<open>(key, requested)\<close> of the
  request: it throws when the entry's value for the key is an inherited member,
  and it goes on when the entry has a truthy string for the key with the
  requested fields in it.
\<close>

definition throws :: "fieldSelection \<Rightarrow> jsstring \<times> jsstring \<Rightarrow> bool" where
  "throws entry p \<longleftrightarrow> get entry (fst p) = Inherited"

definition matches :: "fieldSelection \<Rightarrow> jsstring \<times> jsstring \<Rightarrow> bool" where
  "matches entry p \<longleftrightarrow>
     (case map_of entry (fst p) of
        None \<Rightarrow> False
      | Some cached \<Rightarrow> cached \<noteq> [] \<and> set (fieldList (snd p)) \<subseteq> set (fieldList cached))"


section \<open>Coalesced lookups and the path of a type\<close>

text \<open>
  \<open>xs.join(sep)\<close> on an array of strings.
\<close>

fun join :: "jsstring \<Rightarrow> jsstring list \<Rightarrow> jsstring" where
  "join sep [] = []"
| "join sep [x] = x"
| "join sep (x # y # ys) = x @ sep @ join sep (y # ys)"

datatype json = JString jsstring | JObject "(string \<times> json) list"

record modelClass =
  modelName :: jsstring

text \<open>
  \<^verbatim>\<open>
  findMany(store, type, ids, snapshots) {
    let url = this.buildURL(type.modelName, ids, snapshots, 'findMany');
    return this.ajax(url, 'GET', { data: { filter: { id: ids.join(',') } } });
  }
  \<close>
  \<open>buildURL\<close> and \<open>ajax\<close> are inherited from the URL-building mixin and the REST
  adapter; they are parameters here.  \<open>ajax\<close> acts on the network, the state \<open>'w\<close>.
\<close>

definition findMany ::
  "(jsstring \<Rightarrow> jsstring list \<Rightarrow> 'sn \<Rightarrow> string \<Rightarrow> 'u) \<Rightarrow>
   ('u \<Rightarrow> string \<Rightarrow> json \<Rightarrow> 'w \<Rightarrow> 'p \<times> 'w) \<Rightarrow>
   adapter \<Rightarrow> 's \<Rightarrow> modelClass \<Rightarrow> jsstring list \<Rightarrow> 'sn \<Rightarrow> 'w \<Rightarrow> 'p \<times> 'w" where
  "findMany buildURL ajax self store modelType ids snapshots =
     (let url = buildURL (modelName modelType) ids snapshots ''findMany''
      in ajax url ''GET''
           (JObject [(''data'', JObject [(''filter'', JObject [(''id'', JString (join [comma] ids))])])]))"

text \<open>
  A transport that only records the requests it is given, to count them.
\<close>

definition recordingAjax ::
  "'u \<Rightarrow> string \<Rightarrow> json \<Rightarrow> ('u \<times> string \<times> json) list \<Rightarrow> unit \<times> ('u \<times> string \<times> json) list" where
  "recordingAjax url verb options requests = ((), requests @ [(url, verb, options)])"

text \<open>
  \<^verbatim>\<open>
  pathForType(modelName) {
    let dasherized = dasherize(modelName);
    return pluralize(dasherized);
  }
  \<close>
  \<open>dasherize\<close> and \<open>pluralize\<close> are imported from other packages.  They are
  parameters here, and they are given the state of the program (\<open>'w\<close>: the
  properties of the adapter, the module's cache, the rules of the inflector),
  which they may read and change.  The method itself touches that state through
  the two calls only.
\<close>

definition pathForType ::
  "(jsstring \<Rightarrow> 'w \<Rightarrow> jsstring \<times> 'w) \<Rightarrow> (jsstring \<Rightarrow> 'w \<Rightarrow> jsstring \<times> 'w) \<Rightarrow>
   adapter \<Rightarrow> jsstring \<Rightarrow> 'w \<Rightarrow> jsstring \<times> 'w" where
  "pathForType dasherize pluralize self name world =
     (let (dasherized, world') = dasherize name world
      in pluralize dasherized world')"


datatype operationKind =
  OpFindRecord | OpFindAll | OpFindMany | OpFindHasMany | OpFindBelongsTo
| OpCreateRecord | OpUpdateRecord | OpDeleteRecord | OpQuery | OpQueryRecord





section \<open>Classifying a response\<close>

text \<open>
  What the transport hands back: a response with its status and body (the body
  as its top-level keys), or a failure with the status it reports and a reason.
  The outcome is one of three.
\<close>

datatype 'v response =
  HttpResponse int "(string \<times> 'v) list"
| TransportFailure int jsstring

datatype 'v ResponseOutcome =
  Success "(string \<times> 'v) list"
| Invalid "'v option"
| AdapterError int jsstring

text \<open>
  Modelled from the spec: the response classifier (\<open>handleResponse\<close>, \<open>isSuccess\<close>
  and \<open>isInvalid\<close> of the REST adapter) is not among the sources.  The
  specification gives the rule by status code, and the class comment of the
  JSON:API adapter says the same: 200 to 299, or 304, is a success carrying the
  raw body; 422 is invalid, carrying only the \<open>errors\<close> key of the body; anything
  else, and a network failure, is an adapter error carrying the status code and
  a detail message built from the body or from the failure reason.  How the
  message is built is left open, so the two builders are parameters.
\<close>

fun classify ::
  "(int \<Rightarrow> (string \<times> 'v) list \<Rightarrow> jsstring) \<Rightarrow> (jsstring \<Rightarrow> jsstring) \<Rightarrow>
   'v response \<Rightarrow> 'v ResponseOutcome" where
  "classify detailOfBody detailOfFailure (HttpResponse status body) =
     (if (200 \<le> status \<and> status \<le> 299) \<or> status = 304 then Success body
      else if status = 422 then Invalid (map_of body ''errors'')
      else AdapterError status (detailOfBody status body))"
| "classify detailOfBody detailOfFailure (TransportFailure status reason) =
     AdapterError status (detailOfFailure reason)"


section \<open>Basic facts about the list helpers\<close>

lemma indexOf_ge: "- 1 \<le> indexOf xs x"
  by (induction xs) (auto simp: Let_def)

lemma indexOf_found: "indexOf xs x > - 1 \<longleftrightarrow> x \<in> set xs"
proof (induction xs)
  case Nil
  show ?case by simp
next
  case (Cons y ys)
  have "- 1 \<le> indexOf ys x" by (rule indexOf_ge)
  with Cons show ?case by (auto simp: Let_def)
qed

lemma every_iff: "every p xs \<longleftrightarrow> (\<forall>x \<in> set xs. p x)"
  by (induction xs) auto

lemma hasSomeFields_subset:
  "hasSomeFields c s \<longleftrightarrow> set (fieldList s) \<subseteq> set (fieldList c)"
  by (auto simp: hasSomeFields_def fieldList_def Let_def every_iff indexOf_found)


section \<open>The coverage test is the plain subset test\<close>

text \<open>
  C2: for all field strings, \<open>hasSomeFields cachedFields snapshotFields\<close> is true
  exactly when every trimmed field of \<open>snapshotFields\<close> occurs among the trimmed
  fields of \<open>cachedFields\<close>; the length-comparison disjunct adds nothing.
\<close>

theorem hasSomeFields_is_subset_test:
  "hasSomeFields cachedFields snapshotFields =
     requestedSubsetOfCached cachedFields snapshotFields"
  unfolding requestedSubsetOfCached_def by (rule hasSomeFields_subset)

theorem hasSomeFields_is_subset_test_witness:
  "hasSomeFields (str ''author, body'') (str ''body,author'') \<and>
   requestedSubsetOfCached (str ''author, body'') (str ''body,author'') \<and>
   \<not> hasSomeFields (str ''author'') (str ''author,body'') \<and>
   \<not> requestedSubsetOfCached (str ''author'') (str ''author,body'')"
  using hasSomeFields_is_subset_test [of "str ''author, body''" "str ''body,author''"]
    hasSomeFields_is_subset_test [of "str ''author''" "str ''author,body''"]
  by (simp add: requestedSubsetOfCached_def fieldList_def split_str_def trim_def
      isWhiteSpace_def comma_def str_def)


section \<open>What the loop of \<open>equalFields\<close> computes\<close>

lemma some_safe:
  assumes "\<And>x. x \<in> set xs \<Longrightarrow> f x = Inr (g x)"
  shows "some f xs = Inr (\<exists>x \<in> set xs. g x = Some True)"
  using assms by (induction xs) auto

lemma split_from_nonempty: "split_from sep cur s \<noteq> []"
  by (induction s arbitrary: cur) auto

lemma fieldList_nonempty: "fieldList s \<noteq> []"
  by (simp add: fieldList_def split_str_def split_from_nonempty)

lemma equalFields_loop_step:
  "equalFields_loop entry (p # rest) acc =
     (if throws entry p then Inl TypeError
      else if matches entry p then equalFields_loop entry rest (Some True)
      else Inr (Some False))"
  by (cases p)
    (auto simp: throws_def matches_def get_def truthy_def callHasSomeFields_def
      hasSomeFields_subset split: option.splits)

lemma equalFields_loop_safe:
  assumes "\<forall>p \<in> set req. \<not> throws entry p"
  shows "equalFields_loop entry req acc =
           Inr (if req = [] then acc else Some (\<forall>p \<in> set req. matches entry p))"
  using assms
proof (induction req arbitrary: acc)
  case Nil
  show ?case by simp
next
  case (Cons p rest)
  have "equalFields_loop entry rest (Some True) = Inr (Some (\<forall>q \<in> set rest. matches entry q))"
    using Cons.IH [of "Some True"] Cons.prems by (cases rest) simp_all
  then show ?case
    using Cons.prems by (simp add: equalFields_loop_step)
qed

lemma equalFields_safe:
  assumes "\<forall>entry \<in> set cachedFields. \<forall>p \<in> set request. \<not> throws entry p"
  shows "equalFields cachedFields request =
           Inr (request \<noteq> [] \<and> (\<exists>entry \<in> set cachedFields. \<forall>p \<in> set request. matches entry p))"
proof -
  let ?g = "\<lambda>entry. if request = [] then None else Some (\<forall>p \<in> set request. matches entry p)"
  have "equalFields_loop entry request None = Inr (?g entry)" if "entry \<in> set cachedFields" for entry
    using assms that equalFields_loop_safe [of request entry None] by simp
  then have "equalFields cachedFields request = Inr (\<exists>entry \<in> set cachedFields. ?g entry = Some True)"
    unfolding equalFields_def by (rule some_safe)
  then show ?thesis by auto
qed

lemma ownKeysOnly_safe:
  assumes "ownKeysOnly request"
  shows "\<forall>entry \<in> set cachedFields. \<forall>p \<in> set request. \<not> throws entry p"
  using assms
  by (auto simp: ownKeysOnly_def throws_def get_def list_all_iff split: option.splits)

lemma matches_covers:
  "(\<forall>p \<in> set request. matches entry p) \<longleftrightarrow> covers entry request \<and> cachedTruthy entry request"
proof -
  have "matches entry p \<longleftrightarrow>
          set (fieldList (snd p)) \<subseteq> fieldSet entry (fst p) \<and> map_of entry (fst p) \<noteq> Some []" for p
    using fieldList_nonempty [of "snd p"]
    by (cases "map_of entry (fst p)") (auto simp: matches_def fieldSet_def)
  then show ?thesis
    by (simp add: covers_def cachedTruthy_def list_all_iff case_prod_beta) blast
qed

lemma covers_self:
  assumes "distinct (map fst request)"
  shows "covers request request"
  using assms by (auto simp: covers_def fieldSet_def list_all_iff)

text \<open>
  Where the code and the coverage agree.  For a request with at least one group
  key, none of them the name of a member of \<open>Object.prototype\<close>: a prior entry
  that covers the request with non-empty cached strings makes \<open>captureFields\<close>
  return false and leave the cache as it is, and a request that no prior entry
  covers is recorded and fetched.
\<close>

lemma captureFields_skip:
  assumes "FieldsForRecord rec = Some cachedFields"
    and "request \<noteq> []" and "ownKeysOnly request"
    and "entry \<in> set cachedFields"
    and "covers entry request" and "cachedTruthy entry request"
  shows "captureFields rec request FieldsForRecord = Inr (False, FieldsForRecord)"
proof -
  have "equalFields cachedFields request = Inr True"
    using assms(2,4,5,6) matches_covers [of request entry]
      equalFields_safe [OF ownKeysOnly_safe [OF assms(3), of cachedFields]]
    by auto
  moreover have "cachedFields \<noteq> []" using assms(4) by auto
  ultimately show ?thesis using assms(1) by (simp add: captureFields_def)
qed

lemma captureFields_fetch:
  assumes "FieldsForRecord rec = Some cachedFields"
    and "cachedFields \<noteq> []" and "ownKeysOnly request"
    and "\<forall>entry \<in> set cachedFields. \<exists>(key, requested) \<in> set request.
           \<not> set (fieldList requested) \<subseteq> fieldSet entry key"
  shows "captureFields rec request FieldsForRecord =
           Inr (True, FieldsForRecord(rec \<mapsto> cachedFields @ [request]))"
proof -
  have "\<not> covers entry request" if "entry \<in> set cachedFields" for entry
    using assms(4) that by (fastforce simp: covers_def list_all_iff)
  then have "\<not> (\<exists>entry \<in> set cachedFields. \<forall>p \<in> set request. matches entry p)"
    by (auto simp: matches_covers)
  then have "equalFields cachedFields request = Inr False"
    using equalFields_safe [OF ownKeysOnly_safe [OF assms(3), of cachedFields]] by simp
  then show ?thesis using assms(1,2) by (simp add: captureFields_def)
qed

lemmas evaluate =
  captureFields_def equalFields_def hasSomeFields_def covers_def coveredBy_def
  cachedTruthy_def fieldSet_def get_def truthy_def callHasSomeFields_def
  objectPrototypeKeys_def fieldList_def split_str_def trim_def
  isWhiteSpace_def comma_def str_def historyOf_def newWeakMap_def Let_def

text \<open>
  The specification's example, from the fresh cache: the first request for
  \<open>{comments: "author"}\<close> is fetched, the same request again is not, and a request
  for \<open>{comments: "author,body"}\<close> is.
\<close>

lemma fieldTracking_example:
  "captureFields (0::nat) [(str ''comments'', str ''author'')] newWeakMap =
     Inr (True, [0 \<mapsto> [[(str ''comments'', str ''author'')]]]) \<and>
   captureFields (0::nat) [(str ''comments'', str ''author'')]
     [0 \<mapsto> [[(str ''comments'', str ''author'')]]] =
     Inr (False, [0 \<mapsto> [[(str ''comments'', str ''author'')]]]) \<and>
   captureFields (0::nat) [(str ''comments'', str ''author,body'')]
     [0 \<mapsto> [[(str ''comments'', str ''author'')]]] =
     Inr (True, [0 \<mapsto> [[(str ''comments'', str ''author'')],
                            [(str ''comments'', str ''author,body'')]]])"
  by (simp add: evaluate)

lemma captureFields_history:
  "historyOf (cacheAfter F (captureFields rec request F)) r = historyOf F r \<or>
   historyOf (cacheAfter F (captureFields rec request F)) r = historyOf F r @ [request]"
  by (auto simp: captureFields_def cacheAfter_def historyOf_def split: option.splits sum.splits)

lemma perform_history:
  "historyOf (perform super c F) r = historyOf F r \<or>
   (\<exists>request. historyOf (perform super c F) r = historyOf F r @ [request])"
proof (cases c)
  case (FindRecord self store modelType rid snapshot)
  show ?thesis
  proof (cases "supportsJSONAPIFields self \<and> snapshotFields_of snapshot \<noteq> None")
    case True
    then obtain request where request: "snapshotFields_of snapshot = Some request" by auto
    have "perform super c F = cacheAfter F (captureFields (snapshot_record snapshot) request F)"
      using True request FindRecord
      by (simp add: findRecord_def cacheAfter_def split: sum.splits prod.splits)
    then show ?thesis
      using captureFields_history [of F "snapshot_record snapshot" request r] by auto
  next
    case False
    then have "perform super c F = F"
      using FindRecord by (auto simp: findRecord_def cacheAfter_def split: option.splits)
    then show ?thesis by simp
  qed
next
  case (ShouldReloadRecord self store snapshot)
  show ?thesis
  proof (cases "supportsJSONAPIFields self \<and> snapshotFields_of snapshot \<noteq> None")
    case True
    then obtain request where request: "snapshotFields_of snapshot = Some request" by auto
    have "perform super c F = cacheAfter F (captureFields (snapshot_record snapshot) request F)"
      using True request ShouldReloadRecord by (simp add: shouldReloadRecord_def)
    then show ?thesis
      using captureFields_history [of F "snapshot_record snapshot" request r] by auto
  next
    case False
    then have "perform super c F = F"
      using ShouldReloadRecord
      by (auto simp: shouldReloadRecord_def cacheAfter_def split: option.splits)
    then show ?thesis by simp
  qed
qed

lemma perform_all_history:
  "prefix (historyOf F r) (historyOf (perform_all super calls F) r) \<and>
   length (historyOf (perform_all super calls F) r) \<le> length (historyOf F r) + length calls"
proof (induction calls arbitrary: F)
  case Nil
  show ?case by simp
next
  case (Cons c cs)
  let ?F = "perform super c F"
  have step: "prefix (historyOf F r) (historyOf ?F r) \<and>
              length (historyOf ?F r) \<le> length (historyOf F r) + 1"
    using perform_history [of super c F r] by auto
  from Cons [of ?F] step show ?case
    by (auto intro: prefix_order.trans)
qed


section \<open>A covered request that is fetched again\<close>

text \<open>
  C1 says that a request covered by a prior entry is not fetched again and
  leaves the history as it is.  The code does otherwise on three inputs.  After
  a first request with the empty mapping \<open>{}\<close>, the history is not empty and its
  entry covers \<open>{}\<close>, and the same request is fetched and recorded again: the loop
  never assigns \<open>isEqual\<close>.  The same happens with \<open>{comments: ""}\<close>: the test
  \<open>if (entry[key])\<close> takes the cached empty string for a missing key.  With the
  history \<open>[{comments: "a"}, {post: "x", constructor: "y"}]\<close>, whose second entry
  covers the request \<open>{constructor: "y"}\<close>, the call throws a \<open>TypeError\<close> at the
  first entry: \<open>entry[key]\<close> reads the inherited \<open>constructor\<close>.
\<close>

theorem captureFields_covered_refetches:
  "captureFields (0::nat) [] newWeakMap = Inr (True, [0 \<mapsto> [[]]]) \<and>
   coveredBy [[]] [] \<and>
   captureFields (0::nat) [] [0 \<mapsto> [[]]] = Inr (True, [0 \<mapsto> [[], []]]) \<and>
   captureFields (0::nat) [(str ''comments'', str '''')] newWeakMap =
     Inr (True, [0 \<mapsto> [[(str ''comments'', str '''')]]]) \<and>
   coveredBy [[(str ''comments'', str '''')]] [(str ''comments'', str '''')] \<and>
   captureFields (0::nat) [(str ''comments'', str '''')] [0 \<mapsto> [[(str ''comments'', str '''')]]] =
     Inr (True, [0 \<mapsto> [[(str ''comments'', str '''')], [(str ''comments'', str '''')]]]) \<and>
   coveredBy [[(str ''comments'', str ''a'')],
              [(str ''post'', str ''x''), (str ''constructor'', str ''y'')]]
     [(str ''constructor'', str ''y'')] \<and>
   captureFields (0::nat) [(str ''constructor'', str ''y'')]
     [0 \<mapsto> [[(str ''comments'', str ''a'')],
                [(str ''post'', str ''x''), (str ''constructor'', str ''y'')]]] = Inl TypeError"
  by (simp add: evaluate)


section \<open>A request for more fields that is not recorded\<close>

text \<open>
  C3 says that a request with a group whose field set is not a subset of the
  cached set of any prior entry is recorded and fetched.  With the history
  \<open>[{comments: "author"}]\<close> and the request \<open>{constructor: "x"}\<close> the entry has no
  cached fields for the group, and the call throws a \<open>TypeError\<close> and records
  nothing: \<open>entry[key]\<close> reads the inherited \<open>constructor\<close>, a function, on which
  \<open>hasSomeFields\<close> calls \<open>split\<close>.
\<close>

theorem captureFields_inherited_key_throws:
  "\<not> set (fieldList (str ''x'')) \<subseteq>
       fieldSet [(str ''comments'', str ''author'')] (str ''constructor'') \<and>
   captureFields (0::nat) [(str ''constructor'', str ''x'')]
     [0 \<mapsto> [[(str ''comments'', str ''author'')]]] = Inl TypeError \<and>
   historyOf (cacheAfter [0 \<mapsto> [[(str ''comments'', str ''author'')]]]
       (captureFields (0::nat) [(str ''constructor'', str ''x'')]
          [0 \<mapsto> [[(str ''comments'', str ''author'')]]])) 0 =
     [[(str ''comments'', str ''author'')]]"
  by (simp add: evaluate cacheAfter_def)


section \<open>The feature switched off\<close>

text \<open>
  C4: an adapter with \<open>supportsJSONAPIFields\<close> false answers false from
  \<open>shouldReloadRecord\<close> and leaves the cache alone, whatever the store, the
  snapshot, its \<open>adapterOptions\<close> and the recorded history are.
\<close>

theorem shouldReloadRecord_disabled:
  assumes "\<not> supportsJSONAPIFields self"
  shows "shouldReloadRecord self store snapshot FieldsForRecord = Inr (False, FieldsForRecord)"
  using assms by (simp add: shouldReloadRecord_def)

theorem shouldReloadRecord_disabled_witness:
  "shouldReloadRecord \<lparr>supportsJSONAPIFields = False, coalesceFindRequests = False\<rparr> ()
     \<lparr>snapshot_record = 0::nat,
      adapterOptions = Some \<lparr>options_fields = Some [(str ''comments'', str ''author,body'')]\<rparr>\<rparr>
     [0 \<mapsto> [[(str ''comments'', str ''author'')]]] =
     Inr (False, [0 \<mapsto> [[(str ''comments'', str ''author'')]]])"
  using shouldReloadRecord_disabled
      [where self = "\<lparr>supportsJSONAPIFields = False, coalesceFindRequests = False\<rparr>"
         and store = "()"
         and snapshot = "\<lparr>snapshot_record = 0::nat,
            adapterOptions = Some \<lparr>options_fields = Some [(str ''comments'', str ''author,body'')]\<rparr>\<rparr>"
         and FieldsForRecord = "[0 \<mapsto> [[(str ''comments'', str ''author'')]]]"]
  by simp


section \<open>The first request for a record\<close>

text \<open>
  C5: for a record with no history, absent from the cache or with an empty list,
  \<open>captureFields\<close> returns true and makes the request the record's only history
  entry.
\<close>

theorem captureFields_first_request:
  assumes "FieldsForRecord rec = None \<or> FieldsForRecord rec = Some []"
  shows "captureFields rec request FieldsForRecord =
           Inr (True, FieldsForRecord(rec \<mapsto> [request]))"
  using assms by (auto simp: captureFields_def)

theorem captureFields_first_request_witness:
  "captureFields (0::nat) [(str ''comments'', str ''author'')] Map.empty =
     Inr (True, [0 \<mapsto> [[(str ''comments'', str ''author'')]]]) \<and>
   captureFields (0::nat) [(str ''comments'', str ''author'')] [0 \<mapsto> []] =
     Inr (True, [0 \<mapsto> [[(str ''comments'', str ''author'')]]])"
  using captureFields_first_request
      [where FieldsForRecord = Map.empty and rec = "0::nat"
         and request = "[(str ''comments'', str ''author'')]"]
    captureFields_first_request
      [where FieldsForRecord = "[0 \<mapsto> []]" and rec = "0::nat"
         and request = "[(str ''comments'', str ''author'')]"]
  by simp


section \<open>The history only grows\<close>

text \<open>
  C6: a call of \<open>captureFields\<close> leaves the history of every record as it is or
  appends the request to it; through any sequence of \<open>findRecord\<close> and
  \<open>shouldReloadRecord\<close> calls the history of a record at the start is a prefix
  of its history at the end, which has at most one more entry per call.
\<close>

theorem fieldHistory_never_shrinks:
  "(historyOf (cacheAfter F (captureFields rec request F)) r = historyOf F r \<or>
    historyOf (cacheAfter F (captureFields rec request F)) r = historyOf F r @ [request]) \<and>
   prefix (historyOf F r) (historyOf (perform_all super calls F) r) \<and>
   length (historyOf (perform_all super calls F) r) \<le> length (historyOf F r) + length calls"
  using captureFields_history [of F rec request r] perform_all_history [of F r super calls]
  by blast

theorem fieldHistory_never_shrinks_witness:
  "prefix [[(str ''comments'', str ''author'')]]
     (historyOf
        (perform_all (\<lambda>store modelType rid snapshot. ())
           [FindRecord \<lparr>supportsJSONAPIFields = True, coalesceFindRequests = False\<rparr> () () (str ''1'')
              \<lparr>snapshot_record = 0::nat,
               adapterOptions = Some \<lparr>options_fields = Some [(str ''comments'', str ''author'')]\<rparr>\<rparr>,
            ShouldReloadRecord \<lparr>supportsJSONAPIFields = True, coalesceFindRequests = False\<rparr> ()
              \<lparr>snapshot_record = 0::nat,
               adapterOptions = Some \<lparr>options_fields = Some [(str ''comments'', str ''author,body'')]\<rparr>\<rparr>]
           [0 \<mapsto> [[(str ''comments'', str ''author'')]]]) 0)"
  using fieldHistory_never_shrinks
      [where rec = "0::nat" and request = "[]"
         and F = "[0 \<mapsto> [[(str ''comments'', str ''author'')]]]" and r = "0::nat"
         and super = "\<lambda>store modelType rid snapshot. ()"
         and calls =
          "[FindRecord \<lparr>supportsJSONAPIFields = True, coalesceFindRequests = False\<rparr> () () (str ''1'')
              \<lparr>snapshot_record = 0::nat,
               adapterOptions = Some \<lparr>options_fields = Some [(str ''comments'', str ''author'')]\<rparr>\<rparr>,
            ShouldReloadRecord \<lparr>supportsJSONAPIFields = True, coalesceFindRequests = False\<rparr> ()
              \<lparr>snapshot_record = 0::nat,
               adapterOptions = Some \<lparr>options_fields = Some [(str ''comments'', str ''author,body'')]\<rparr>\<rparr>]"]
  by (simp add: historyOf_def)


section \<open>The empty request\<close>

text \<open>
  C10: \<open>equalFields\<close> is false for a request without group keys, whatever the
  cached entries are, so \<open>captureFields\<close> with the empty mapping returns true and
  appends the empty mapping to the record's history, also when the record has
  history already.
\<close>

theorem captureFields_empty_request:
  "equalFields cachedFields [] = Inr False \<and>
   captureFields rec [] FieldsForRecord =
     Inr (True, FieldsForRecord(rec \<mapsto> historyOf FieldsForRecord rec @ [[]]))"
proof -
  have none: "equalFields h [] = Inr False" for h
    using equalFields_safe [of h "[]"] by simp
  then show ?thesis
    by (auto simp: captureFields_def historyOf_def split: option.splits)
qed

theorem captureFields_empty_request_witness:
  "captureFields (0::nat) [] [0 \<mapsto> [[(str ''comments'', str ''author'')]]] =
     Inr (True, [0 \<mapsto> [[(str ''comments'', str ''author'')], []]])"
  using captureFields_empty_request
      [where cachedFields = "[[(str ''comments'', str ''author'')]]" and rec = "0::nat"
         and FieldsForRecord = "[0 \<mapsto> [[(str ''comments'', str ''author'')]]]"]
  by (simp add: historyOf_def)


section \<open>One request for many ids\<close>

lemma split_from_no_sep:
  "sep \<notin> set x \<Longrightarrow> split_from sep cur (x @ rest) = split_from sep (rev x @ cur) rest"
  by (induction x arbitrary: cur) auto

lemma split_from_join:
  "\<forall>i \<in> set (x # xs). sep \<notin> set i \<Longrightarrow>
   split_from sep cur (join [sep] (x # xs)) = (rev cur @ x) # xs"
proof (induction xs arbitrary: x cur)
  case Nil
  then show ?case using split_from_no_sep [of sep x cur "[]"] by simp
next
  case (Cons y ys)
  have "split_from sep cur (join [sep] (x # y # ys)) =
          split_from sep (rev x @ cur) (sep # join [sep] (y # ys))"
    using Cons.prems split_from_no_sep [of sep x cur "sep # join [sep] (y # ys)"] by simp
  also have "\<dots> = (rev cur @ x) # split_from sep [] (join [sep] (y # ys))"
    by simp
  also have "split_from sep [] (join [sep] (y # ys)) = y # ys"
    using Cons.IH [of y "[]"] Cons.prems by simp
  finally show ?case .
qed

text \<open>
  The filter string keeps the ids and their order: splitting it at the commas
  gives the ids back, when there is an id and no id contains a comma.
\<close>

lemma split_join:
  assumes "ids \<noteq> []" and "\<forall>i \<in> set ids. comma \<notin> set i"
  shows "split_str comma (join [comma] ids) = ids"
  using assms split_from_join [of "hd ids" "tl ids" comma "[]"]
  by (cases ids) (simp_all add: split_str_def)

text \<open>
  C8: \<open>findMany\<close> is one call of \<open>ajax\<close>, with the URL that \<open>buildURL\<close> gives for
  the model name, the ids, the snapshots and the kind \<open>findMany\<close>, the verb
  \<open>GET\<close>, and the data \<open>{filter: {id: s}}\<close> where \<open>s\<close> is the ids joined with
  commas in their order; on a transport that records its requests it adds
  exactly this one request.
\<close>

theorem findMany_one_request:
  "findMany buildURL ajax self store modelType ids snapshots =
     ajax (buildURL (modelName modelType) ids snapshots ''findMany'') ''GET''
       (JObject [(''data'', JObject [(''filter'', JObject [(''id'', JString (join [comma] ids))])])]) \<and>
   snd (findMany buildURL recordingAjax self store modelType ids snapshots requests) =
     requests @
       [(buildURL (modelName modelType) ids snapshots ''findMany'', ''GET'',
         JObject [(''data'', JObject [(''filter'', JObject [(''id'', JString (join [comma] ids))])])])]"
  by (simp add: findMany_def recordingAjax_def)

theorem findMany_one_request_witness:
  "snd (findMany (\<lambda>name ids snapshots kind. (name, kind)) recordingAjax
          \<lparr>supportsJSONAPIFields = False, coalesceFindRequests = True\<rparr> ()
          \<lparr>modelName = str ''comment''\<rparr> [str ''1'', str ''2''] () []) =
     [((str ''comment'', ''findMany''), ''GET'',
       JObject [(''data'', JObject [(''filter'', JObject [(''id'', JString (str ''1,2''))])])])]"
  using findMany_one_request
      [where buildURL = "\<lambda>name ids snapshots kind. (name, kind)" and ajax = recordingAjax
         and self = "\<lparr>supportsJSONAPIFields = False, coalesceFindRequests = True\<rparr>"
         and store = "()" and modelType = "\<lparr>modelName = str ''comment''\<rparr>"
         and ids = "[str ''1'', str ''2'']" and snapshots = "()" and requests = "[]"]
  by (simp add: recordingAjax_def str_def comma_def)


section \<open>The path of a type and the URL\<close>

text \<open>
  The path follows the imported functions: with a \<open>pluralize\<close> that reads the
  state, two calls with the same model name give different paths.
\<close>

lemma pathForType_follows_pluralize:
  "fst (pathForType (\<lambda>name world. (name, world))
          (\<lambda>name world. (if world then name @ str ''s'' else name, world))
          \<lparr>supportsJSONAPIFields = False, coalesceFindRequests = False\<rparr> (str ''post'') True) \<noteq>
   fst (pathForType (\<lambda>name world. (name, world))
          (\<lambda>name world. (if world then name @ str ''s'' else name, world))
          \<lparr>supportsJSONAPIFields = False, coalesceFindRequests = False\<rparr> (str ''post'') False)"
  by (simp add: pathForType_def str_def)




section \<open>The outcome of a response\<close>

text \<open>
  C7: a response with status 200 to 299, or 304, is a success carrying the body
  unchanged; status 422 is invalid, carrying the \<open>errors\<close> key of the body and
  nothing else of it; every other status, and a transport failure, is an adapter
  error carrying the status and a detail message.
\<close>

theorem classify_by_status:
  "((200 \<le> status \<and> status \<le> 299) \<or> status = 304 \<longrightarrow>
      classify detailOfBody detailOfFailure (HttpResponse status body) = Success body) \<and>
   classify detailOfBody detailOfFailure (HttpResponse 422 body) =
      Invalid (map_of body ''errors'') \<and>
   (map_of body ''errors'' = map_of body' ''errors'' \<longrightarrow>
      classify detailOfBody detailOfFailure (HttpResponse 422 body) =
      classify detailOfBody detailOfFailure (HttpResponse 422 body')) \<and>
   (\<not> (200 \<le> status \<and> status \<le> 299) \<and> status \<noteq> 304 \<and> status \<noteq> 422 \<longrightarrow>
      classify detailOfBody detailOfFailure (HttpResponse status body) =
      AdapterError status (detailOfBody status body)) \<and>
   classify detailOfBody detailOfFailure (TransportFailure status reason) =
      AdapterError status (detailOfFailure reason)"
  by simp

theorem classify_by_status_witness:
  "classify (\<lambda>status body. str ''error'') (\<lambda>reason. reason)
     (HttpResponse 200 [(''data'', JObject [])]) = Success [(''data'', JObject [])] \<and>
   classify (\<lambda>status body. str ''error'') (\<lambda>reason. reason)
     (HttpResponse 422 [(''errors'', JString (str ''invalid'')), (''data'', JObject [])]) =
   classify (\<lambda>status body. str ''error'') (\<lambda>reason. reason)
     (HttpResponse 422 [(''errors'', JString (str ''invalid''))]) \<and>
   classify (\<lambda>status body. str ''error'') (\<lambda>reason. reason)
     (HttpResponse 500 [(''data'', JObject [])]) = AdapterError 500 (str ''error'')"
proof -
  let ?d = "\<lambda>(status::int) (body::(string \<times> json) list). str ''error''"
  let ?f = "\<lambda>reason::jsstring. reason"
  let ?data = "[(''data'', JObject [])]"
  let ?errors = "[(''errors'', JString (str ''invalid''))]"
  have ok: "classify ?d ?f (HttpResponse 200 ?data) = Success ?data"
    using classify_by_status
      [where status = 200 and body = ?data and body' = ?data and reason = "[]"
         and detailOfBody = ?d and detailOfFailure = ?f]
    by (simp del: classify.simps)
  have same: "map_of (?errors @ ?data) ''errors'' = map_of ?errors ''errors''"
    by simp
  have invalid: "classify ?d ?f (HttpResponse 422 (?errors @ ?data)) =
      classify ?d ?f (HttpResponse 422 ?errors)"
    using same classify_by_status
      [where status = 422 and body = "?errors @ ?data" and body' = ?errors and reason = "[]"
         and detailOfBody = ?d and detailOfFailure = ?f]
    by blast
  have failed: "classify ?d ?f (HttpResponse 500 ?data) = AdapterError 500 (str ''error'')"
    using classify_by_status
      [where status = 500 and body = ?data and body' = ?data and reason = "[]"
         and detailOfBody = ?d and detailOfFailure = ?f]
    by (simp del: classify.simps)
  from ok invalid failed show ?thesis by (simp del: classify.simps)
qed

end
